theory Spec2Isabelle
  imports Main
begin

section \<open>The scanner of \<open>src/python/lexer.py\<close>\<close>

text \<open>
  A shallow embedding of the class \<open>Lexer\<close>. A Python string is a list of characters;
  the characters of the model are the code points 0 to 255, and the predicates of
  \<open>str\<close> (\<open>isspace\<close>, \<open>isdigit\<close>, \<open>isalpha\<close>, \<open>isalnum\<close>) are those of CPython on
  that range. The counters \<open>pos\<close>, \<open>lineno\<close> and \<open>column\<close> start at 0 or 1 and are
  only ever incremented, so they are natural numbers (unbounded, as Python's integers).
  An exception is a value of type \<open>exn\<close>, and a method that can raise returns a sum.
\<close>

subsection \<open>Exceptions, token types, tokens\<close>

text \<open>
  \<open>Exception\<close> is the builtin class, carrying its message; \<open>LexerError\<close> is the class
  declared in lines 10 to 11 of the source; the other three are the builtin exceptions
  that indexing a string, calling a method of \<open>None\<close> and \<open>int\<close>/\<open>float\<close> raise.
\<close>

datatype exn =
    Exception string
  | LexerError string
  | IndexError
  | AttributeError
  | ValueError

fun is_LexerError :: "exn \<Rightarrow> bool" where
  "is_LexerError (LexerError m) = True"
| "is_LexerError e = False"

datatype TokenType =
    PLUS | MINUS | MUL | FLOAT_DIV | LPAREN | RPAREN | LBRACE | RBRACE
  | SEMI | DOT | COLON | COMMA | ASSIGN | LESS | LESS_EQUAL | GREATER | GREATER_EQUAL
  | BANG | EQUAL | BANG_EQUAL
  | PROGRAM | INTEGER | REAL | INTEGER_DIV | VAR | PROCEDURE | BEGIN | END
  | IDENT | INTEGER_CONST | REAL_CONST | EOF

text \<open>
  The value of a token is \<open>None\<close>, an integer, a float, a string or (by \<open>new_token\<close>) the
  token type itself. A float is kept as the decimal text that \<open>float\<close> was given: the
  rounding to a double is not part of the model.
\<close>

datatype pyval =
    PyNone
  | PyInt int
  | PyFloat string
  | PyStr string
  | PyType TokenType

record Token =
  type :: TokenType
  tvalue :: pyval
  line :: nat
  col :: nat

subsection \<open>The builtins of \<open>str\<close> and \<open>int\<close>\<close>

definition newline :: char where
  "newline = CHR 0x0A"

definition str_isspace :: "char \<Rightarrow> bool" where
  "str_isspace c =
     (let n = (of_char c :: nat)
      in (9 \<le> n \<and> n \<le> 13) \<or> (28 \<le> n \<and> n \<le> 32) \<or> n = 133 \<or> n = 160)"

definition str_isdecimal :: "char \<Rightarrow> bool" where
  "str_isdecimal c = (let n = (of_char c :: nat) in 48 \<le> n \<and> n \<le> 57)"

definition str_isdigit :: "char \<Rightarrow> bool" where
  "str_isdigit c =
     (let n = (of_char c :: nat)
      in (48 \<le> n \<and> n \<le> 57) \<or> n = 178 \<or> n = 179 \<or> n = 185)"

definition str_isalpha :: "char \<Rightarrow> bool" where
  "str_isalpha c =
     (let n = (of_char c :: nat)
      in (65 \<le> n \<and> n \<le> 90) \<or> (97 \<le> n \<and> n \<le> 122) \<or> n = 170 \<or> n = 181 \<or> n = 186
         \<or> (192 \<le> n \<and> n \<le> 214) \<or> (216 \<le> n \<and> n \<le> 246) \<or> 248 \<le> n)"

definition str_isnumeric :: "char \<Rightarrow> bool" where
  "str_isnumeric c = (let n = (of_char c :: nat) in str_isdigit c \<or> (188 \<le> n \<and> n \<le> 190))"

definition str_isalnum :: "char \<Rightarrow> bool" where
  "str_isalnum c = (str_isalpha c \<or> str_isdecimal c \<or> str_isdigit c \<or> str_isnumeric c)"

text \<open>\<open>str(n)\<close> of a natural number: its decimal digits.\<close>

fun str_of_nat :: "nat \<Rightarrow> string" where
  "str_of_nat n =
     (if n < 10 then [char_of (48 + n)]
      else str_of_nat (n div 10) @ [char_of (48 + n mod 10)])"

text \<open>
  \<open>int(result)\<close> and \<open>float(result)\<close>, on the strings \<open>number\<close> builds (characters that
  satisfy \<open>isdigit\<close>, and one dot for a float). Both raise \<open>ValueError\<close> on a character
  that is a digit but not a decimal one (the superscripts), \<open>int\<close> also on the empty
  string and on more digits than the interpreter's limit for the conversion (4300 by
  default).
\<close>

definition int_max_str_digits :: nat where
  "int_max_str_digits = 4300"

definition py_int :: "string \<Rightarrow> exn + int" where
  "py_int r =
     (if r = [] then Inl ValueError
      else if list_ex (\<lambda>c. \<not> str_isdecimal c) r then Inl ValueError
      else if int_max_str_digits < length r then Inl ValueError
      else Inr (foldl (\<lambda>a c. 10 * a + (of_char c - 48)) 0 r))"

definition py_float :: "string \<Rightarrow> exn + pyval" where
  "py_float r =
     (if list_ex (\<lambda>c. \<not> str_isdecimal c \<and> c \<noteq> CHR ''.'') r then Inl ValueError
      else Inr (PyFloat r))"

subsection \<open>The scanner's state\<close>

text \<open>
  The fields of a \<open>Lexer\<close> object. The dictionary \<open>reserved_keywords\<close> is filled by the
  constructor and never changed, so it is a constant of the model.
\<close>

record Lexer =
  text' :: string
  pos :: nat
  current_char :: "char option"
  lineno :: nat
  column :: nat

definition reserved_keywords :: "string \<rightharpoonup> TokenType" where
  "reserved_keywords =
     map_of [(''PROGRAM'', PROGRAM), (''INTEGER'', INTEGER), (''REAL'', REAL),
             (''DIV'', INTEGER_DIV), (''VAR'', VAR), (''PROCEDURE'', PROCEDURE),
             (''BEGIN'', BEGIN), (''END'', END)]"

text \<open>
  The constructor: \<open>self.text[self.pos]\<close> with \<open>pos = 0\<close> raises \<open>IndexError\<close> on the empty
  string.
\<close>

definition Lexer_init :: "string \<Rightarrow> exn + Lexer" where
  "Lexer_init t =
     (if 0 < length t
      then Inr \<lparr>text' = t, pos = 0, current_char = Some (t ! 0), lineno = 1, column = 1\<rparr>
      else Inl IndexError)"

text \<open>
  \<open>error\<close> always raises: the model gives the exception it raises. The format prints the
  current character with \<open>str\<close>, which is \<open>None\<close> for the sentinel.
\<close>

definition str_of_char_option :: "char option \<Rightarrow> string" where
  "str_of_char_option c = (case c of None \<Rightarrow> ''None'' | Some ch \<Rightarrow> [ch])"

definition error :: "Lexer \<Rightarrow> exn" where
  "error s =
     Exception (''Lexer error on '' @ [CHR 0x27] @ str_of_char_option (current_char s)
                @ [CHR 0x27] @ '' line: '' @ str_of_nat (lineno s)
                @ '' column: '' @ str_of_nat (column s))"

definition advance :: "Lexer \<Rightarrow> Lexer" where
  "advance s =
     (let p = pos s + 1;
          c = (if int (length (text' s)) - 1 < int p then None else Some (text' s ! p));
          s1 = s\<lparr>pos := p, current_char := c\<rparr>
      in if c = Some newline then s1\<lparr>lineno := lineno s1 + 1, column := 1\<rparr> else s1)"

definition peek :: "Lexer \<Rightarrow> char option" where
  "peek s =
     (let peek_pos = pos s + 1
      in if int (length (text' s)) - 1 < int peek_pos then None
         else Some (text' s ! peek_pos))"

text \<open>
  The measure of the loops: nothing is left at the sentinel, and otherwise one more than
  the characters from the cursor on.
\<close>

definition remaining :: "Lexer \<Rightarrow> nat" where
  "remaining s =
     (case current_char s of None \<Rightarrow> 0 | Some c \<Rightarrow> Suc (length (text' s) - pos s))"

function skip_whitespace :: "Lexer \<Rightarrow> Lexer" where
  "skip_whitespace s =
     (case current_char s of
        None \<Rightarrow> s
      | Some c \<Rightarrow> if str_isspace c then skip_whitespace (advance s) else s)"
  by pat_completeness auto
termination
  by (relation "measure remaining") (auto simp: remaining_def advance_def Let_def)

declare skip_whitespace.simps [simp del]

text \<open>\<open>skip_comments\<close>: its loop, then the error at the sentinel or the step over the brace.\<close>

function skip_comments_loop :: "Lexer \<Rightarrow> Lexer" where
  "skip_comments_loop s =
     (case current_char s of
        None \<Rightarrow> s
      | Some c \<Rightarrow> if c \<noteq> CHR ''}'' then skip_comments_loop (advance s) else s)"
  by pat_completeness auto
termination
  by (relation "measure remaining") (auto simp: remaining_def advance_def Let_def)

declare skip_comments_loop.simps [simp del]

definition skip_comments :: "Lexer \<Rightarrow> exn + Lexer" where
  "skip_comments s =
     (let s1 = skip_comments_loop s
      in if current_char s1 = None then Inl (error s1) else Inr (advance s1))"

text \<open>\<open>new_token\<close>: a value that is \<open>None\<close> is replaced by the type.\<close>

definition new_token :: "Lexer \<Rightarrow> TokenType \<Rightarrow> pyval \<Rightarrow> Token" where
  "new_token s ty v =
     \<lparr>type = ty, tvalue = (if v = PyNone then PyType ty else v),
      line = lineno s, col = column s\<rparr>"

text \<open>
  \<open>number\<close>: both of its loops are the same loop over digits, given the text read so far.
  \<open>self.peek().isdigit()\<close> is evaluated only when the current character is a dot, and
  raises \<open>AttributeError\<close> when \<open>peek\<close> returns \<open>None\<close>.
\<close>

function number_digits :: "string \<Rightarrow> Lexer \<Rightarrow> string \<times> Lexer" where
  "number_digits result s =
     (case current_char s of
        None \<Rightarrow> (result, s)
      | Some c \<Rightarrow>
          if str_isdigit c then number_digits (result @ [c]) (advance s) else (result, s))"
  by pat_completeness auto
termination
  by (relation "measure (\<lambda>(r, s). remaining s)")
     (auto simp: remaining_def advance_def Let_def)

declare number_digits.simps [simp del]

definition number_int :: "string \<Rightarrow> Lexer \<Rightarrow> exn + Token \<times> Lexer" where
  "number_int result s =
     (case py_int result of
        Inl e \<Rightarrow> Inl e
      | Inr n \<Rightarrow> Inr (new_token s INTEGER_CONST (PyInt n), s))"

definition number :: "Lexer \<Rightarrow> exn + Token \<times> Lexer" where
  "number s =
     (case number_digits [] s of (result, s1) \<Rightarrow>
        if current_char s1 = Some (CHR ''.'') then
          (case peek s1 of
             None \<Rightarrow> Inl AttributeError
           | Some d \<Rightarrow>
               if str_isdigit d then
                 (case number_digits (result @ [CHR ''.'']) (advance s1) of (result2, s2) \<Rightarrow>
                    (case py_float result2 of
                       Inl e \<Rightarrow> Inl e
                     | Inr v \<Rightarrow> Inr (new_token s2 REAL_CONST v, s2)))
               else number_int result s1)
        else number_int result s1)"

text \<open>
  The method \<open>isalpha\<close> of the scanner, and \<open>identifier\<close> (primed here, the plain
  name being reserved), whose loop calls the builtin
  \<open>isalpha\<close> of the character (\<open>self.current_char.isalpha()\<close>), not the method.
\<close>

definition isalpha :: "char \<Rightarrow> bool" where
  "isalpha ch = (str_isalnum ch \<or> ch = CHR ''_'')"

function identifier_loop :: "string \<Rightarrow> Lexer \<Rightarrow> string \<times> Lexer" where
  "identifier_loop result s =
     (case current_char s of
        None \<Rightarrow> (result, s)
      | Some c \<Rightarrow>
          if str_isalpha c then identifier_loop (result @ [c]) (advance s) else (result, s))"
  by pat_completeness auto
termination
  by (relation "measure (\<lambda>(r, s). remaining s)")
     (auto simp: remaining_def advance_def Let_def)

declare identifier_loop.simps [simp del]

definition identifier' :: "Lexer \<Rightarrow> Token \<times> Lexer" where
  "identifier' s =
     (case identifier_loop [] s of (result, s1) \<Rightarrow>
        (let token_type = (case reserved_keywords result of None \<Rightarrow> IDENT | Some t \<Rightarrow> t)
         in (new_token s1 token_type (PyStr result), s1)))"

subsection \<open>\<open>get_next_token\<close>\<close>

text \<open>
  What an iteration of the loop does once the current character \<open>c\<close> is neither
  whitespace nor an opening brace (lines 155 to 230): it returns a token or raises.
\<close>

definition get_next_token_body :: "Lexer \<Rightarrow> char \<Rightarrow> exn + Token \<times> Lexer" where
  "get_next_token_body s c =
     (if str_isdigit c then number s
      else if isalpha c then Inr (identifier' s)
      else if c = CHR ''+'' then (let s1 = advance s in Inr (new_token s1 PLUS PyNone, s1))
      else if c = CHR ''-'' then (let s1 = advance s in Inr (new_token s1 MINUS PyNone, s1))
      else if c = CHR ''*'' then (let s1 = advance s in Inr (new_token s1 MUL PyNone, s1))
      else if c = CHR ''/'' then
        (let s1 = advance s in Inr (new_token s1 FLOAT_DIV PyNone, s1))
      else if c = CHR ''('' then (let s1 = advance s in Inr (new_token s1 LPAREN PyNone, s1))
      else if c = CHR '')'' then (let s1 = advance s in Inr (new_token s1 RPAREN PyNone, s1))
      else if c = CHR '';'' then (let s1 = advance s in Inr (new_token s1 SEMI PyNone, s1))
      else if c = CHR ''.'' then (let s1 = advance s in Inr (new_token s1 DOT PyNone, s1))
      else if c = CHR '':'' then
        (if peek s = Some (CHR ''='')
         then (let s1 = advance (advance s) in Inr (new_token s1 ASSIGN PyNone, s1))
         else (let s1 = advance s in Inr (new_token s1 COLON PyNone, s1)))
      else if c = CHR '','' then (let s1 = advance s in Inr (new_token s1 COMMA PyNone, s1))
      else if c = CHR ''<'' then
        (let s1 = advance s
         in if current_char s1 = Some (CHR ''='')
            then (let s2 = advance s1 in Inr (new_token s2 LESS_EQUAL PyNone, s2))
            else Inr (new_token s1 LESS PyNone, s1))
      else if c = CHR ''>'' then
        (let s1 = advance s
         in if current_char s1 = Some (CHR ''='')
            then (let s2 = advance s1 in Inr (new_token s2 GREATER_EQUAL PyNone, s2))
            else Inr (new_token s1 GREATER PyNone, s1))
      else if c = CHR ''!'' then
        (let s1 = advance s
         in if current_char s1 = Some (CHR ''='')
            then (let s2 = advance s1 in Inr (new_token s2 BANG_EQUAL PyNone, s2))
            else Inr (new_token s1 BANG PyNone, s1))
      else Inl (error s))"

text \<open>Each step of a loop brings the cursor nearer to the end of the text.\<close>

lemma remaining_advance:
  "current_char s = Some c \<Longrightarrow> remaining (advance s) < remaining s"
  by (auto simp: remaining_def advance_def Let_def)

lemma remaining_skip_whitespace: "remaining (skip_whitespace s) \<le> remaining s"
proof (induction s rule: skip_whitespace.induct)
  case (1 s)
  show ?case
  proof (cases "current_char s")
    case None
    then show ?thesis by (simp add: skip_whitespace.simps [of s])
  next
    case (Some c)
    show ?thesis
    proof (cases "str_isspace c")
      case True
      with Some 1 have "remaining (skip_whitespace (advance s)) \<le> remaining (advance s)"
        by simp
      moreover have "remaining (advance s) < remaining s"
        using Some by (rule remaining_advance)
      ultimately show ?thesis using Some True by (simp add: skip_whitespace.simps [of s])
    next
      case False
      with Some show ?thesis by (simp add: skip_whitespace.simps [of s])
    qed
  qed
qed

lemma remaining_skip_whitespace_less:
  assumes "current_char s = Some c" and "str_isspace c"
  shows "remaining (skip_whitespace s) < remaining s"
proof -
  have "skip_whitespace s = skip_whitespace (advance s)"
    using assms by (simp add: skip_whitespace.simps [of s])
  moreover have "remaining (skip_whitespace (advance s)) \<le> remaining (advance s)"
    by (rule remaining_skip_whitespace)
  moreover have "remaining (advance s) < remaining s"
    using assms(1) by (rule remaining_advance)
  ultimately show ?thesis by simp
qed

lemma remaining_skip_comments_loop: "remaining (skip_comments_loop s) \<le> remaining s"
proof (induction s rule: skip_comments_loop.induct)
  case (1 s)
  show ?case
  proof (cases "current_char s")
    case None
    then show ?thesis by (simp add: skip_comments_loop.simps [of s])
  next
    case (Some c)
    show ?thesis
    proof (cases "c = CHR ''}''")
      case False
      with Some 1
      have "remaining (skip_comments_loop (advance s)) \<le> remaining (advance s)"
        by simp
      moreover have "remaining (advance s) < remaining s"
        using Some by (rule remaining_advance)
      ultimately show ?thesis
        using Some False by (simp add: skip_comments_loop.simps [of s])
    next
      case True
      with Some show ?thesis by (simp add: skip_comments_loop.simps [of s])
    qed
  qed
qed

lemma remaining_skip_comments:
  assumes "skip_comments s = Inr s1"
  shows "remaining s1 < remaining s"
proof -
  let ?l = "skip_comments_loop s"
  from assms obtain c where c: "current_char ?l = Some c" and s1: "s1 = advance ?l"
    by (auto simp: skip_comments_def Let_def split: if_splits)
  have "remaining s1 < remaining ?l" unfolding s1 using c by (rule remaining_advance)
  also have "\<dots> \<le> remaining s" by (rule remaining_skip_comments_loop)
  finally show ?thesis .
qed

text \<open>
  The loop of \<open>get_next_token\<close>: at the sentinel it is left and the \<open>EOF\<close> token, built
  without a position, is returned; whitespace and a comment are skipped and the loop
  continues; anything else returns or raises in the iteration.
\<close>

function get_next_token :: "Lexer \<Rightarrow> exn + Token \<times> Lexer" where
  "get_next_token s =
     (case current_char s of
        None \<Rightarrow> Inr (\<lparr>type = EOF, tvalue = PyNone, line = 0, col = 0\<rparr>, s)
      | Some c \<Rightarrow>
          if str_isspace c then get_next_token (skip_whitespace s)
          else if c = CHR ''{'' then
            (case skip_comments s of
               Inl e \<Rightarrow> Inl e
             | Inr s1 \<Rightarrow> get_next_token s1)
          else get_next_token_body s c)"
  by pat_completeness auto
termination
  by (relation "measure remaining")
     (simp_all add: remaining_skip_whitespace_less remaining_skip_comments)

declare get_next_token.simps [simp del]

text \<open>
  The iterations of that loop that continue, on their own: the state in which the loop
  comes to a character that is neither whitespace nor the start of a comment, or to the
  sentinel, and the exception of an unterminated comment.
\<close>

function skip_to_token :: "Lexer \<Rightarrow> exn + Lexer" where
  "skip_to_token s =
     (case current_char s of
        None \<Rightarrow> Inr s
      | Some c \<Rightarrow>
          if str_isspace c then skip_to_token (skip_whitespace s)
          else if c = CHR ''{'' then
            (case skip_comments s of
               Inl e \<Rightarrow> Inl e
             | Inr s1 \<Rightarrow> skip_to_token s1)
          else Inr s)"
  by pat_completeness auto
termination
  by (relation "measure remaining")
     (simp_all add: remaining_skip_whitespace_less remaining_skip_comments)

declare skip_to_token.simps [simp del]

text \<open>
  A caller's loop: the result of the call number \<open>n + 1\<close> on a scanner, each call on the
  state the one before left; an exception ends it.
\<close>

fun nth_call :: "nat \<Rightarrow> Lexer \<Rightarrow> exn + Token \<times> Lexer" where
  "nth_call 0 s = get_next_token s"
| "nth_call (Suc n) s =
     (case get_next_token s of
        Inl e \<Rightarrow> Inl e
      | Inr (t, s1) \<Rightarrow> nth_call n s1)"

text \<open>Construction from a text, then one call.\<close>

definition first_token :: "string \<Rightarrow> exn + Token \<times> Lexer" where
  "first_token t = (case Lexer_init t of Inl e \<Rightarrow> Inl e | Inr s \<Rightarrow> get_next_token s)"

subsection \<open>The keywords as the specification lists them\<close>

text \<open>
  This definition follows the words of the specification, not the source: the kind of a
  word is the keyword kind when the word is spelled exactly as one of the eight reserved
  words, in upper case, and the identifier kind otherwise. It is compared below with the
  lookup in \<open>reserved_keywords\<close> that \<open>identifier\<close> makes.
\<close>

definition spec_keyword_kind :: "string \<Rightarrow> TokenType" where
  "spec_keyword_kind w =
     (if w = ''PROGRAM'' then PROGRAM
      else if w = ''VAR'' then VAR
      else if w = ''BEGIN'' then BEGIN
      else if w = ''END'' then END
      else if w = ''PROCEDURE'' then PROCEDURE
      else if w = ''INTEGER'' then INTEGER
      else if w = ''REAL'' then REAL
      else if w = ''DIV'' then INTEGER_DIV
      else IDENT)"

section \<open>Shared facts\<close>

lemma underscore_class:
  "\<not> str_isspace (CHR ''_'')" "\<not> str_isdigit (CHR ''_'')" "\<not> str_isalpha (CHR ''_'')"
  "isalpha (CHR ''_'')"
  by code_simp+

text \<open>
  On an underscore the loop of \<open>identifier\<close> is not entered: the token is the empty
  identifier and the scanner is where it was.
\<close>

lemma identifier_underscore:
  assumes "current_char s = Some (CHR ''_'')"
  shows "identifier' s = (new_token s IDENT (PyStr []), s)"
  using assms
  by (simp add: identifier'_def identifier_loop.simps [of _ s] underscore_class
      reserved_keywords_def)

lemma get_next_token_underscore:
  assumes "current_char s = Some (CHR ''_'')"
  shows "get_next_token s =
         Inr (\<lparr>type = IDENT, tvalue = PyStr [], line = lineno s, col = column s\<rparr>, s)"
  using assms
  by (simp add: get_next_token.simps [of s] get_next_token_body_def underscore_class
      identifier_underscore new_token_def)

lemma nth_call_underscore:
  assumes "current_char s = Some (CHR ''_'')"
  shows "nth_call n s =
         Inr (\<lparr>type = IDENT, tvalue = PyStr [], line = lineno s, col = column s\<rparr>, s)"
  by (induction n) (simp_all add: get_next_token_underscore [OF assms])

text \<open>An iteration on a character that is not skipped is the body of the loop.\<close>

lemma get_next_token_at:
  assumes "current_char s = Some c" and "\<not> str_isspace c" and "c \<noteq> CHR ''{''"
  shows "get_next_token s = get_next_token_body s c"
  using assms by (simp add: get_next_token.simps [of s])

text \<open>
  A character that the builtin \<open>isalpha\<close> accepts is dispatched to \<open>identifier\<close>,
  and is not a newline.
\<close>

lemma alpha_class:
  assumes "str_isalpha c"
  shows "\<not> str_isspace c" "\<not> str_isdigit c" "c \<noteq> CHR ''{''" "isalpha c" "c \<noteq> newline"
proof -
  show "\<not> str_isspace c" "\<not> str_isdigit c"
    using assms by (auto simp: str_isalpha_def str_isspace_def str_isdigit_def Let_def)
  show "isalpha c" using assms by (simp add: isalpha_def str_isalnum_def)
  have "\<not> str_isalpha (CHR ''{'')" "\<not> str_isalpha newline" by code_simp+
  with assms show "c \<noteq> CHR ''{''" "c \<noteq> newline" by auto
qed

lemma advance_onto_alpha:
  assumes "pos s + 1 < length (text' s) \<Longrightarrow> str_isalpha (text' s ! (pos s + 1))"
  shows "advance s =
         s\<lparr>pos := pos s + 1,
           current_char := (if pos s + 1 < length (text' s)
                            then Some (text' s ! (pos s + 1)) else None)\<rparr>"
proof (cases "pos s + 1 < length (text' s)")
  case True
  with assms have "text' s ! (pos s + 1) \<noteq> newline" by (auto dest: alpha_class(5))
  with True show ?thesis by (simp add: advance_def Let_def)
next
  case False
  then show ?thesis by (simp add: advance_def Let_def)
qed

text \<open>
  On a well-formed state whose text is alphabetic from the cursor on, the loop of
  \<open>identifier\<close> reads to the end of the text.
\<close>

lemma identifier_loop_alpha:
  assumes "pos s \<le> length (text' s)"
    and "current_char s = (if pos s < length (text' s) then Some (text' s ! pos s) else None)"
    and "list_all str_isalpha (drop (pos s) (text' s))"
  shows "identifier_loop r s =
         (r @ drop (pos s) (text' s), s\<lparr>pos := length (text' s), current_char := None\<rparr>)"
  using assms
proof (induction r s rule: identifier_loop.induct)
  case (1 r s)
  show ?case
  proof (cases "pos s < length (text' s)")
    case False
    with "1.prems" have "pos s = length (text' s)" "current_char s = None" by simp_all
    then show ?thesis by (simp add: identifier_loop.simps [of r s])
  next
    case True
    let ?c = "text' s ! pos s"
    have cur: "current_char s = Some ?c" using True "1.prems"(2) by simp
    have dr: "drop (pos s) (text' s) = ?c # drop (Suc (pos s)) (text' s)"
      using True by (simp add: Cons_nth_drop_Suc)
    with "1.prems"(3) have al: "str_isalpha ?c"
      and rest: "list_all str_isalpha (drop (Suc (pos s)) (text' s))" by simp_all
    have nxt: "pos s + 1 < length (text' s) \<Longrightarrow> str_isalpha (text' s ! (pos s + 1))"
    proof -
      assume l: "pos s + 1 < length (text' s)"
      then have "drop (Suc (pos s)) (text' s)
                 = text' s ! (pos s + 1) # drop (Suc (Suc (pos s))) (text' s)"
        by (simp add: Cons_nth_drop_Suc)
      with rest show ?thesis by simp
    qed
    note adv = advance_onto_alpha [OF nxt]
    have "identifier_loop (r @ [?c]) (advance s) =
          ((r @ [?c]) @ drop (pos (advance s)) (text' (advance s)),
           (advance s)\<lparr>pos := length (text' (advance s)), current_char := None\<rparr>)"
    proof (rule "1.IH" [OF cur al])
      show "pos (advance s) \<le> length (text' (advance s))" using True by (simp add: adv)
      show "current_char (advance s) =
            (if pos (advance s) < length (text' (advance s))
             then Some (text' (advance s) ! pos (advance s)) else None)"
        by (simp add: adv)
      show "list_all str_isalpha (drop (pos (advance s)) (text' (advance s)))"
        using rest by (simp add: adv)
    qed
    then have "identifier_loop (r @ [?c]) (advance s) =
          (r @ drop (pos s) (text' s), s\<lparr>pos := length (text' s), current_char := None\<rparr>)"
      by (simp add: adv dr)
    then show ?thesis using cur al by (simp add: identifier_loop.simps [of r s])
  qed
qed

lemma reserved_keywords_spec:
  "(case reserved_keywords w of None \<Rightarrow> IDENT | Some t \<Rightarrow> t) = spec_keyword_kind w"
  by (simp add: reserved_keywords_def spec_keyword_kind_def)

text \<open>The call on a state and on the state that the skipping leaves give the same.\<close>

lemma get_next_token_skip:
  "skip_to_token s = Inr s1 \<Longrightarrow> get_next_token s = get_next_token s1"
proof (induction s rule: skip_to_token.induct)
  case (1 s)
  show ?case
  proof (cases "current_char s")
    case None
    with "1.prems" show ?thesis by (simp add: skip_to_token.simps [of s])
  next
    case (Some c)
    show ?thesis
    proof (cases "str_isspace c")
      case True
      with Some "1.prems" have "skip_to_token (skip_whitespace s) = Inr s1"
        by (simp add: skip_to_token.simps [of s])
      from "1.IH"(1) [OF Some True this] Some True show ?thesis
        by (simp add: get_next_token.simps [of s])
    next
      case ns: False
      show ?thesis
      proof (cases "c = CHR ''{''")
        case True
        with Some ns "1.prems" obtain s2 where s2: "skip_comments s = Inr s2"
          and k: "skip_to_token s2 = Inr s1"
          by (auto simp: skip_to_token.simps [of s] split: sum.splits)
        from "1.IH"(2) [OF Some ns True s2 k] Some ns True s2 show ?thesis
          by (simp add: get_next_token.simps [of s])
      next
        case False
        with Some ns "1.prems" show ?thesis by (simp add: skip_to_token.simps [of s])
      qed
    qed
  qed
qed

text \<open>Only the exit of the loop at the sentinel builds an \<open>EOF\<close> token.\<close>

lemma number_int_not_EOF: "number_int r s = Inr (t, s1) \<Longrightarrow> type t \<noteq> EOF"
  by (auto simp: number_int_def new_token_def split: sum.splits)

lemma number_not_EOF: "number s = Inr (t, s1) \<Longrightarrow> type t \<noteq> EOF"
  by (auto simp: number_def new_token_def split: prod.splits if_splits option.splits sum.splits
      dest: number_int_not_EOF)

lemma reserved_keywords_not_EOF: "reserved_keywords r = Some ty \<Longrightarrow> ty \<noteq> EOF"
  by (auto simp: reserved_keywords_def split: if_splits)

lemma identifier_not_EOF: "identifier' s = (t, s1) \<Longrightarrow> type t \<noteq> EOF"
  by (auto simp: identifier'_def new_token_def Let_def split: prod.splits option.splits
      dest: reserved_keywords_not_EOF)

lemma body_not_EOF: "get_next_token_body s c = Inr (t, s1) \<Longrightarrow> type t \<noteq> EOF"
  unfolding get_next_token_body_def Let_def
  by (auto simp: new_token_def split: if_splits dest: number_not_EOF identifier_not_EOF)

lemma get_next_token_EOF:
  "get_next_token s = Inr (t, s1) \<Longrightarrow> type t = EOF \<Longrightarrow>
   current_char s1 = None \<and> t = \<lparr>type = EOF, tvalue = PyNone, line = 0, col = 0\<rparr>"
proof (induction s rule: get_next_token.induct)
  case (1 s)
  show ?case
  proof (cases "current_char s")
    case None
    with "1.prems" show ?thesis by (auto simp: get_next_token.simps [of s])
  next
    case (Some c)
    show ?thesis
    proof (cases "str_isspace c")
      case True
      with Some "1.prems" have "get_next_token (skip_whitespace s) = Inr (t, s1)"
        by (simp add: get_next_token.simps [of s])
      with "1.IH"(1) [OF Some True] "1.prems"(2) show ?thesis by simp
    next
      case ns: False
      show ?thesis
      proof (cases "c = CHR ''{''")
        case True
        with Some ns "1.prems" obtain s2 where s2: "skip_comments s = Inr s2"
          and g: "get_next_token s2 = Inr (t, s1)"
          by (auto simp: get_next_token.simps [of s] split: sum.splits)
        from "1.IH"(2) [OF Some ns True s2 g "1.prems"(2)] show ?thesis .
      next
        case False
        with Some ns "1.prems" have "get_next_token_body s c = Inr (t, s1)"
          by (simp add: get_next_token.simps [of s])
        with "1.prems"(2) show ?thesis by (auto dest: body_not_EOF)
      qed
    qed
  qed
qed

lemma nth_call_at_end:
  assumes "current_char s = None"
  shows "nth_call n s = Inr (\<lparr>type = EOF, tvalue = PyNone, line = 0, col = 0\<rparr>, s)"
  by (induction n) (simp_all add: get_next_token.simps [of s] assms)

text \<open>Past the end of the text, \<open>advance\<close> only counts the position up.\<close>

lemma advance_past_end:
  assumes "length (text' s) \<le> pos s" and "current_char s = None"
  shows "advance s = s\<lparr>pos := pos s + 1\<rparr>"
  using assms by (simp add: advance_def Let_def)

section \<open>The claims\<close>

text \<open>
  C1. The claim: for the empty input string, constructing the scanner and calling
  \<open>get_next_token\<close> once yields one \<open>EOF\<close> token and raises nothing. The code: the
  constructor reads \<open>text[0]\<close> without the bound check that \<open>advance\<close> and \<open>peek\<close>
  make, and raises \<open>IndexError\<close>; no token is produced.
\<close>

theorem empty_input_raises_IndexError:
  "Lexer_init [] = Inl IndexError \<and> first_token [] = Inl IndexError"
  by (simp add: first_token_def Lexer_init_def)

text \<open>
  C2. The claim: \<open>advance\<close> moves the cursor one character forward, and if the consumed
  character was a newline it increments the line and resets the column to 1, otherwise
  it increments the column. The code: the column is never incremented (on the text
  \<open>ab\<close> it is still 1 after the step over \<open>a\<close>), and the line is counted when the
  character stepped onto is a newline, not when the consumed one is (on a newline
  followed by \<open>b\<close> the line is still 1 after the step over the newline).
\<close>

theorem advance_keeps_column_and_misses_consumed_newline:
  "advance \<lparr>text' = ''ab'', pos = 0, current_char = Some (CHR ''a''), lineno = 1, column = 1\<rparr>
     = \<lparr>text' = ''ab'', pos = 1, current_char = Some (CHR ''b''), lineno = 1, column = 1\<rparr>
   \<and> advance \<lparr>text' = [newline, CHR ''b''], pos = 0, current_char = Some newline,
               lineno = 1, column = 1\<rparr>
     = \<lparr>text' = [newline, CHR ''b''], pos = 1, current_char = Some (CHR ''b''),
        lineno = 1, column = 1\<rparr>"
  by code_simp

text \<open>
  C3. The claim: on the input \<open>3.\<close> the first call returns the integer literal 3 and
  leaves the dot, the second returns \<open>DOT\<close>, and neither raises. The code: after the
  digit, \<open>number\<close> finds the dot and calls \<open>isdigit\<close> on the result of \<open>peek\<close>, which is
  \<open>None\<close> at the end of the text; the first call raises \<open>AttributeError\<close>.
\<close>

theorem trailing_dot_raises_AttributeError:
  "first_token ''3.'' = Inl AttributeError"
  by code_simp

text \<open>
  C4. The claim: on an input that starts with a letter, the identifier takes all the
  following characters that are alphanumeric or an underscore, so that \<open>x1_y\<close> is one
  identifier. The code: the loop of \<open>identifier\<close> tests the builtin \<open>isalpha\<close> of the
  character, not the scanner's method of that name, and stops at the first digit or
  underscore; on \<open>x1_y\<close> the token is the identifier \<open>x\<close> and the cursor is on \<open>1\<close>.
\<close>

theorem identifier_stops_at_digit:
  "first_token ''x1_y'' =
     Inr (\<lparr>type = IDENT, tvalue = PyStr ''x'', line = 1, col = 1\<rparr>,
          \<lparr>text' = ''x1_y'', pos = 1, current_char = Some (CHR ''1''), lineno = 1,
             column = 1\<rparr>)"
  by code_simp

text \<open>
  C5. The claim: on an illegal character, and at the end of the input inside a comment,
  \<open>get_next_token\<close> raises the scanner's own error type with the message
  \<open>Lexer error on '<char>' line: <n> column: <m>\<close>. The code: the message is that one,
  with \<open>None\<close> for the character at the end of the input, but the exception raised is
  the builtin \<open>Exception\<close>; the class \<open>LexerError\<close> that the source declares is
  never raised.
\<close>

theorem error_is_plain_Exception:
  "first_token ''@'' =
     Inl (Exception (''Lexer error on '' @ [CHR 0x27] @ ''@'' @ [CHR 0x27]
                     @ '' line: 1 column: 1''))
   \<and> first_token ''{ab'' =
     Inl (Exception (''Lexer error on '' @ [CHR 0x27] @ ''None'' @ [CHR 0x27]
                     @ '' line: 1 column: 1''))
   \<and> \<not> is_LexerError (error s)"
  by (intro conjI, code_simp, code_simp, simp add: error_def)

text \<open>
  C6, as the claim states it: once the current character is the sentinel, further calls
  of \<open>advance\<close> leave it there and the position never exceeds the length of the text.
  The second half fails: on the text \<open>a\<close>, with the cursor past the end (position 1),
  one more call makes the position 2.
\<close>

theorem advance_past_end_exceeds_length:
  "current_char \<lparr>text' = ''a'', pos = 1, current_char = None, lineno = 1, column = 1\<rparr> = None
   \<and> \<not> pos (advance \<lparr>text' = ''a'', pos = 1, current_char = None, lineno = 1,
                        column = 1\<rparr>)
        \<le> length (text' \<lparr>text' = ''a'', pos = 1, current_char = None, lineno = 1,
                          column = 1\<rparr>)"
  by code_simp

text \<open>
  C6, amended: once the cursor is past the end of the text and the current character is
  the sentinel, any number \<open>n\<close> of further calls of \<open>advance\<close> raises nothing, leaves the
  current character at the sentinel and the line and the column as they were, and adds
  \<open>n\<close> to the position (which therefore exceeds the length of the text).
\<close>

theorem advance_past_end_counts_position:
  assumes "length (text' s) \<le> pos s" and "current_char s = None"
  shows "(advance ^^ n) s = s\<lparr>pos := pos s + n\<rparr>"
proof (induction n)
  case 0
  show ?case by simp
next
  case (Suc n)
  have "advance (s\<lparr>pos := pos s + n\<rparr>)
        = s\<lparr>pos := pos s + n\<rparr>\<lparr>pos := pos (s\<lparr>pos := pos s + n\<rparr>) + 1\<rparr>"
    by (rule advance_past_end) (use assms in simp_all)
  with Suc show ?case by simp
qed

theorem advance_past_end_counts_position_witness:
  "length (text' \<lparr>text' = ''a'', pos = 1, current_char = None, lineno = 1, column = 1\<rparr>) \<le> 1
   \<and> current_char \<lparr>text' = ''a'', pos = 1, current_char = None, lineno = 1, column = 1\<rparr>
       = None
   \<and> (advance ^^ 3) \<lparr>text' = ''a'', pos = 1, current_char = None, lineno = 1, column = 1\<rparr>
       = \<lparr>text' = ''a'', pos = 4, current_char = None, lineno = 1, column = 1\<rparr>"
  using advance_past_end_counts_position
    [of "\<lparr>text' = ''a'', pos = 1, current_char = None, lineno = 1, column = 1\<rparr>" 3]
  by simp

text \<open>
  C7. The claim: on every finite input, repeated calls of \<open>get_next_token\<close> reach the
  \<open>EOF\<close> token or an error after finitely many calls, every branch advancing the
  cursor. The code: on the input \<open>_\<close> the branch of \<open>identifier\<close> does not advance,
  and every call, however many are made, returns the empty identifier and leaves the
  scanner in its initial state.
\<close>

theorem underscore_is_scanned_forever:
  "Lexer_init ''_'' =
     Inr \<lparr>text' = ''_'', pos = 0, current_char = Some (CHR ''_''), lineno = 1, column = 1\<rparr>
   \<and> (\<forall>n. nth_call n
            \<lparr>text' = ''_'', pos = 0, current_char = Some (CHR ''_''), lineno = 1, column = 1\<rparr>
          = Inr (\<lparr>type = IDENT, tvalue = PyStr [], line = 1, col = 1\<rparr>,
                 \<lparr>text' = ''_'', pos = 0, current_char = Some (CHR ''_''), lineno = 1,
                    column = 1\<rparr>))"
  by (simp add: Lexer_init_def nth_call_underscore)

text \<open>
  C8. Once a call of \<open>get_next_token\<close>, on any state of the scanner, has returned a
  token of type \<open>EOF\<close>, that token is the one built at the exit of the loop, and every
  later call, however many are made, returns the \<open>EOF\<close> token again, raises nothing
  and leaves the scanner as it is.
\<close>

theorem EOF_is_returned_again:
  assumes "get_next_token s = Inr (t, s1)" and "type t = EOF"
  shows "t = \<lparr>type = EOF, tvalue = PyNone, line = 0, col = 0\<rparr>
     \<and> nth_call n s1 = Inr (\<lparr>type = EOF, tvalue = PyNone, line = 0, col = 0\<rparr>, s1)"
  using get_next_token_EOF [OF assms] nth_call_at_end by simp

theorem EOF_is_returned_again_witness:
  "get_next_token \<lparr>text' = ''a '', pos = 1, current_char = Some (CHR '' ''), lineno = 1, column = 1\<rparr>
     = Inr (\<lparr>type = EOF, tvalue = PyNone, line = 0, col = 0\<rparr>,
            \<lparr>text' = ''a '', pos = 2, current_char = None, lineno = 1, column = 1\<rparr>)
   \<and> nth_call 4 \<lparr>text' = ''a '', pos = 2, current_char = None, lineno = 1, column = 1\<rparr>
     = Inr (\<lparr>type = EOF, tvalue = PyNone, line = 0, col = 0\<rparr>,
            \<lparr>text' = ''a '', pos = 2, current_char = None, lineno = 1, column = 1\<rparr>)"
proof -
  have g: "get_next_token \<lparr>text' = ''a '', pos = 1, current_char = Some (CHR '' ''), lineno = 1, column = 1\<rparr>
     = Inr (\<lparr>type = EOF, tvalue = PyNone, line = 0, col = 0\<rparr>,
            \<lparr>text' = ''a '', pos = 2, current_char = None, lineno = 1, column = 1\<rparr>)"
    by code_simp
  have e: "type \<lparr>type = EOF, tvalue = PyNone, line = 0, col = 0\<rparr> = EOF" by simp
  from EOF_is_returned_again [OF g e, of 4] g show ?thesis by simp
qed

text \<open>
  C9. For an input that is one alphabetic word, the first token has the kind that the
  specification gives the word: the keyword kind for each of \<open>PROGRAM\<close>, \<open>VAR\<close>,
  \<open>BEGIN\<close>, \<open>END\<close>, \<open>PROCEDURE\<close>, \<open>INTEGER\<close>, \<open>REAL\<close> and \<open>DIV\<close> spelled exactly so,
  and the identifier kind for every other word, any other casing of a reserved word
  among them (\<open>Begin\<close>, \<open>begin\<close>); the value of the token is the word.
\<close>

theorem keyword_lookup_is_exact:
  assumes "w \<noteq> []" and "list_all str_isalpha w"
  shows "first_token w =
         Inr (\<lparr>type = spec_keyword_kind w, tvalue = PyStr w, line = 1, col = 1\<rparr>,
              \<lparr>text' = w, pos = length w, current_char = None, lineno = 1, column = 1\<rparr>)"
proof -
  let ?s = "\<lparr>text' = w, pos = 0, current_char = Some (w ! 0), lineno = 1, column = 1\<rparr>"
  from assms have a0: "str_isalpha (w ! 0)" by (cases w) simp_all
  have "identifier_loop [] ?s =
        ([] @ drop (pos ?s) (text' ?s), ?s\<lparr>pos := length (text' ?s), current_char := None\<rparr>)"
    by (rule identifier_loop_alpha) (use assms in simp_all)
  then have "identifier' ?s =
        (\<lparr>type = spec_keyword_kind w, tvalue = PyStr w, line = 1, col = 1\<rparr>,
         \<lparr>text' = w, pos = length w, current_char = None, lineno = 1, column = 1\<rparr>)"
    by (simp add: identifier'_def reserved_keywords_spec new_token_def)
  note idt = this
  note cls = alpha_class [OF a0]
  have "get_next_token ?s = get_next_token_body ?s (w ! 0)"
    by (rule get_next_token_at) (use cls in simp_all)
  also have "\<dots> = Inr (identifier' ?s)"
    using cls by (simp add: get_next_token_body_def)
  finally have "get_next_token ?s =
        Inr (\<lparr>type = spec_keyword_kind w, tvalue = PyStr w, line = 1, col = 1\<rparr>,
             \<lparr>text' = w, pos = length w, current_char = None, lineno = 1, column = 1\<rparr>)"
    by (simp only: idt)
  then show ?thesis using assms(1) by (simp add: first_token_def Lexer_init_def)
qed

theorem keyword_lookup_is_exact_witness:
  "first_token ''BEGIN'' =
     Inr (\<lparr>type = BEGIN, tvalue = PyStr ''BEGIN'', line = 1, col = 1\<rparr>,
          \<lparr>text' = ''BEGIN'', pos = 5, current_char = None, lineno = 1, column = 1\<rparr>)
   \<and> first_token ''Begin'' =
     Inr (\<lparr>type = IDENT, tvalue = PyStr ''Begin'', line = 1, col = 1\<rparr>,
          \<lparr>text' = ''Begin'', pos = 5, current_char = None, lineno = 1, column = 1\<rparr>)
   \<and> first_token ''begin'' =
     Inr (\<lparr>type = IDENT, tvalue = PyStr ''begin'', line = 1, col = 1\<rparr>,
          \<lparr>text' = ''begin'', pos = 5, current_char = None, lineno = 1, column = 1\<rparr>)"
proof -
  have a: "list_all str_isalpha ''BEGIN''" "list_all str_isalpha ''Begin''"
    "list_all str_isalpha ''begin''" by code_simp+
  have n: "''BEGIN'' \<noteq> []" "''Begin'' \<noteq> []" "''begin'' \<noteq> []" by simp_all
  show ?thesis
    using keyword_lookup_is_exact [OF n(1) a(1)] keyword_lookup_is_exact [OF n(2) a(2)]
      keyword_lookup_is_exact [OF n(3) a(3)]
    by (simp add: spec_keyword_kind_def)
qed

text \<open>
  C10. When the first character that \<open>get_next_token\<close> does not skip is an underscore,
  the call returns an \<open>IDENT\<close> token whose value is the empty string and leaves the
  cursor on the underscore; so does every later call, and no call returns \<open>EOF\<close>.
\<close>

theorem underscore_yields_empty_identifier_forever:
  assumes "skip_to_token s = Inr s1" and "current_char s1 = Some (CHR ''_'')"
  shows "nth_call n s =
         Inr (\<lparr>type = IDENT, tvalue = PyStr [], line = lineno s1, col = column s1\<rparr>, s1)"
proof -
  have g: "get_next_token s =
           Inr (\<lparr>type = IDENT, tvalue = PyStr [], line = lineno s1, col = column s1\<rparr>, s1)"
    using get_next_token_skip [OF assms(1)] get_next_token_underscore [OF assms(2)] by simp
  show ?thesis
  proof (cases n)
    case 0
    with g show ?thesis by simp
  next
    case (Suc m)
    with g nth_call_underscore [OF assms(2), of m] show ?thesis by simp
  qed
qed

theorem underscore_yields_empty_identifier_forever_witness:
  "skip_to_token \<lparr>text' = '' {c} _a'', pos = 0, current_char = Some (CHR '' ''), lineno = 1, column = 1\<rparr>
     = Inr \<lparr>text' = '' {c} _a'', pos = 5, current_char = Some (CHR ''_''), lineno = 1, column = 1\<rparr>
   \<and> nth_call 7 \<lparr>text' = '' {c} _a'', pos = 0, current_char = Some (CHR '' ''), lineno = 1, column = 1\<rparr>
     = Inr (\<lparr>type = IDENT, tvalue = PyStr [], line = 1, col = 1\<rparr>,
            \<lparr>text' = '' {c} _a'', pos = 5, current_char = Some (CHR ''_''), lineno = 1, column = 1\<rparr>)"
proof -
  have k: "skip_to_token \<lparr>text' = '' {c} _a'', pos = 0, current_char = Some (CHR '' ''), lineno = 1, column = 1\<rparr>
     = Inr \<lparr>text' = '' {c} _a'', pos = 5, current_char = Some (CHR ''_''), lineno = 1, column = 1\<rparr>"
    by code_simp
  have u: "current_char \<lparr>text' = '' {c} _a'', pos = 5, current_char = Some (CHR ''_''), lineno = 1, column = 1\<rparr> = Some (CHR ''_'')"
    by simp
  from underscore_yields_empty_identifier_forever [OF k u, of 7] k show ?thesis by simp
qed

end
